theory Spec2Isabelle
  imports Main "HOL-Library.Word"
begin

section \<open>Strings and Go integer arithmetic\<close>

text \<open>
  A Go \<open>string\<close> and a Go \<open>[]byte\<close> are sequences of bytes; both are modelled as lists
  of 8-bit characters. Go's \<open>int\<close> is modelled as \<open>int\<close>: the arithmetic of the file
  (comparisons, division by small constants, sums bounded by 16 KiB + 4) cannot overflow.
  Go's \<open>/\<close> and \<open>%\<close> truncate towards zero.
\<close>

definition go_div :: "int \<Rightarrow> int \<Rightarrow> int" where
  "go_div a b = sgn a * sgn b * (\<bar>a\<bar> div \<bar>b\<bar>)"

definition go_mod :: "int \<Rightarrow> int \<Rightarrow> int" where
  "go_mod a b = a - b * go_div a b"

section \<open>escapedText\<close>

definition is_special :: "char \<Rightarrow> bool" where
  "is_special c = (c = CHR 0x5C \<or> c = CHR 0x0A \<or> c = CHR 0x0D \<or> c = CHR 0x09)"

text \<open>The first loop of \<open>escapedText\<close>: the index of the first byte to escape, if any.\<close>

function escape_scan :: "string \<Rightarrow> nat \<Rightarrow> nat option" where
  "escape_scan text i =
     (if i < length text
      then (if is_special (text ! i) then Some i else escape_scan text (i + 1))
      else None)"
  by pat_completeness auto
termination
  by (relation "measure (\<lambda>(text, i). length text - i)") auto

declare escape_scan.simps [simp del]

text \<open>The \<open>switch\<close> of the second loop: what is appended for one byte.\<close>

definition escape_byte :: "char \<Rightarrow> string" where
  "escape_byte c =
     (if c = CHR 0x5C then [CHR 0x5C, CHR 0x5C]
      else if c = CHR 0x0A then [CHR 0x5C, CHR ''n'']
      else if c = CHR 0x0D then [CHR 0x5C, CHR ''r'']
      else if c = CHR 0x09 then [CHR 0x5C, CHR ''t'']
      else [c])"

text \<open>The second loop: from index \<open>i\<close> on, every byte is appended to \<open>result\<close>, escaped.\<close>

function escape_loop :: "string \<Rightarrow> nat \<Rightarrow> string \<Rightarrow> string" where
  "escape_loop text i result =
     (if i < length text
      then escape_loop text (i + 1) (result @ escape_byte (text ! i))
      else result)"
  by pat_completeness auto
termination
  by (relation "measure (\<lambda>(text, i, result). length text - i)") auto

declare escape_loop.simps [simp del]

definition escapedText :: "string \<Rightarrow> string" where
  "escapedText text =
     (case escape_scan text 0 of
        None \<Rightarrow> text
      | Some startPos \<Rightarrow> escape_loop text startPos (take startPos text))"

text \<open>
  The escaping as the specification words it: every byte is replaced on its own, in
  place, by its two-character escape when it is one of the four, and kept otherwise.
\<close>

definition escapeRowText_spec :: "string \<Rightarrow> string" where
  "escapeRowText_spec text = concat (map escape_byte text)"


section \<open>The time values of the standard library\<close>

text \<open>
  \<open>time.Time\<close> is the standard library's, not the repository's. The model keeps what the
  encoder reads: the instant, as seconds since January 1 of year 1, 00:00:00 UTC,
  with the nanoseconds within the second, and the location. A location is the offset
  (seconds east of UTC) in effect at a Unix time. The civil date follows the
  library's \<open>absDate\<close>: 400-, 100-, 4- and 1-year cycles of days cut off in turn.
\<close>

type_synonym location = "int \<Rightarrow> int"

record gotime =
  t_sec :: int
  t_nsec :: int
  t_loc :: location

definition valid_time :: "gotime \<Rightarrow> bool" where
  "valid_time t = (0 \<le> t_nsec t \<and> t_nsec t < 1000000000)"

definition unixToInternal :: int where
  "unixToInternal = 62135596800"

definition UTC :: location where
  "UTC = (\<lambda>unix. 0)"

definition time_IsZero :: "gotime \<Rightarrow> bool" where
  "time_IsZero t = (t_sec t = 0 \<and> t_nsec t = 0)"

definition time_In :: "gotime \<Rightarrow> location \<Rightarrow> gotime" where
  "time_In t l = t\<lparr>t_loc := l\<rparr>"

definition time_Add :: "gotime \<Rightarrow> int \<Rightarrow> gotime" where
  "time_Add t d =
     (let dsec = go_div d 1000000000;
          nsec = t_nsec t + go_mod d 1000000000
      in if nsec \<ge> 1000000000
         then t\<lparr>t_sec := t_sec t + (dsec + 1), t_nsec := nsec - 1000000000\<rparr>
         else if nsec < 0
         then t\<lparr>t_sec := t_sec t + (dsec - 1), t_nsec := nsec + 1000000000\<rparr>
         else t\<lparr>t_sec := t_sec t + dsec, t_nsec := nsec\<rparr>)"

text \<open>Seconds since the epoch of year 1 on the wall clock of the time's location.\<close>

definition time_abs :: "gotime \<Rightarrow> int" where
  "time_abs t = t_sec t + t_loc t (t_sec t - unixToInternal)"

definition isLeap :: "int \<Rightarrow> bool" where
  "isLeap year = (go_mod year 4 = 0 \<and> (go_mod year 100 \<noteq> 0 \<or> go_mod year 400 = 0))"

definition daysBefore :: "int list" where
  "daysBefore = [0, 31, 59, 90, 120, 151, 181, 212, 243, 273, 304, 334, 365]"

text \<open>The year and the day within the year (from 0) of a day count from the epoch.\<close>

definition absDate :: "int \<Rightarrow> int \<times> int" where
  "absDate days =
     (let n400 = days div 146097;
          d0 = days mod 146097;
          c = d0 div 36524;
          n100 = c - c div 4;
          d1 = d0 - 36524 * n100;
          n4 = d1 div 1461;
          d2 = d1 - 1461 * n4;
          y = d2 div 365;
          n1 = y - y div 4;
          d3 = d2 - 365 * n1
      in (400 * n400 + 100 * n100 + 4 * n4 + n1 + 1, d3))"

text \<open>The month (January is 1) and the day of the month of a day of a year.\<close>

definition month_day :: "int \<Rightarrow> int \<Rightarrow> int \<times> int" where
  "month_day year yday =
     (if isLeap year \<and> yday = 59 then (2, 29)
      else
        let day = (if isLeap year \<and> yday > 59 then yday - 1 else yday);
            month = day div 31;
            end = daysBefore ! nat (month + 1)
        in if day \<ge> end then (month + 2, day - end + 1)
           else (month + 1, day - daysBefore ! nat month + 1))"

definition time_Year :: "gotime \<Rightarrow> int" where
  "time_Year t = fst (absDate (time_abs t div 86400))"

definition time_Month :: "gotime \<Rightarrow> int" where
  "time_Month t = (let (year, yday) = absDate (time_abs t div 86400) in fst (month_day year yday))"

definition time_Day :: "gotime \<Rightarrow> int" where
  "time_Day t = (let (year, yday) = absDate (time_abs t div 86400) in snd (month_day year yday))"

definition time_Hour :: "gotime \<Rightarrow> int" where
  "time_Hour t = (time_abs t mod 86400) div 3600"

definition time_Minute :: "gotime \<Rightarrow> int" where
  "time_Minute t = (time_abs t mod 3600) div 60"

definition time_Second :: "gotime \<Rightarrow> int" where
  "time_Second t = time_abs t mod 60"

definition time_Nanosecond :: "gotime \<Rightarrow> int" where
  "time_Nanosecond t = t_nsec t"

section \<open>Connection state\<close>

record config =
  AllowAllFiles :: bool
  Loc :: location

text \<open>
  The fields of \<open>mysqlConn\<close> that the file reads and writes. \<open>loadData\<close> is the
  \<open>bytes.Buffer\<close> of the programmatic load: its unread bytes.
\<close>

record mysqlConn =
  cfg :: config
  maxWriteSize :: int
  inLoadData :: bool
  maxLoadDataSize :: int
  loadData :: string

section \<open>encodedLoadData\<close>

text \<open>
  Modelled from the spec: the two-digit lookup tables \<open>digits10\<close> and \<open>digits01\<close> are
  declared in a file of the repository that is not among the sources at hand. Entry
  \<open>i\<close> of \<open>digits10\<close> is the tens digit and entry \<open>i\<close> of \<open>digits01\<close> the units digit
  of the zero-padded two-digit number \<open>i\<close>; each table is a string of 100 bytes.
\<close>

definition digits01 :: string where
  "digits01 = ''0123456789012345678901234567890123456789012345678901234567890123456789012345678901234567890123456789''"

definition digits10 :: string where
  "digits10 = ''0000000000111111111122222222223333333333444444444455555555556666666666777777777788888888889999999999''"

text \<open>Indexing a Go string: an index out of range is a run-time panic.\<close>

datatype panic = IndexOutOfRange | NilDereference

definition index_byte :: "string \<Rightarrow> int \<Rightarrow> panic + char" where
  "index_byte s i = (if 0 \<le> i \<and> i < int (length s) then Inr (s ! nat i) else Inl IndexOutOfRange)"

text \<open>The pair \<open>digits10[i], digits01[i]\<close> of a byte-slice literal, evaluated in order.\<close>

definition two_digits :: "int \<Rightarrow> panic + string" where
  "two_digits i =
     (case index_byte digits10 i of
        Inl p \<Rightarrow> Inl p
      | Inr a \<Rightarrow> (case index_byte digits01 i of Inl p \<Rightarrow> Inl p | Inr b \<Rightarrow> Inr [a, b]))"

text \<open>The elements of a byte-slice literal in order: the first panic ends the evaluation.\<close>

fun literal_bytes :: "(panic + string) list \<Rightarrow> panic + string" where
  "literal_bytes [] = Inr []"
| "literal_bytes (Inl p # xs) = Inl p"
| "literal_bytes (Inr s # xs) = (case literal_bytes xs of Inl p \<Rightarrow> Inl p | Inr r \<Rightarrow> Inr (s @ r))"

text \<open>
  \<open>strconv.FormatInt(v, 10)\<close> and \<open>strconv.FormatUint(v, 10)\<close> of the standard library:
  the decimal digits, most significant first, after a minus sign for a negative value.
\<close>

definition digit_char :: "nat \<Rightarrow> char" where
  "digit_char d = char_of (48 + d)"

function dec_digits :: "nat \<Rightarrow> string" where
  "dec_digits n = (if n < 10 then [digit_char n] else dec_digits (n div 10) @ [digit_char (n mod 10)])"
  by pat_completeness auto
termination
  by (relation "measure (\<lambda>n. n)") auto

declare dec_digits.simps [simp del]

definition FormatUint :: "64 word \<Rightarrow> string" where
  "FormatUint v = dec_digits (unat v)"

definition FormatInt :: "64 word \<Rightarrow> string" where
  "FormatInt v = (if sint v < 0 then CHR ''-'' # dec_digits (nat (- sint v)) else dec_digits (nat (sint v)))"

text \<open>
  The dynamic types of the \<open>interface{}\<close> argument. An \<open>int64\<close>, a \<open>uint64\<close> and a
  \<open>float64\<close> are their 64 bits; a \<open>[]byte\<close> is \<open>None\<close> when it is the nil slice;
  \<open>VOther\<close> stands for a value of any other dynamic type.
\<close>

datatype driver_value =
    VInt64 "64 word"
  | VUint64 "64 word"
  | VFloat64 "64 word"
  | VBool bool
  | VTime gotime
  | VBytes "string option"
  | VString string
  | VNil
  | VOther

text \<open>
  \<open>strconv.FormatFloat\<close> is the standard library's; the encoder takes it as the
  parameter \<open>fmtFloat\<close>, called with the value's bits, the format byte, the precision
  and the bit size. The diagnostic that the default case logs is not modelled.
\<close>

type_synonym format_float = "64 word \<Rightarrow> char \<Rightarrow> int \<Rightarrow> int \<Rightarrow> string"

definition encode_time :: "gotime \<Rightarrow> panic + string" where
  "encode_time v =
     (let year = time_Year v;
          year100 = go_div year 100;
          year1 = go_mod year 100;
          month = time_Month v;
          day = time_Day v;
          hour = time_Hour v;
          minute = time_Minute v;
          second = time_Second v;
          micro = go_div (time_Nanosecond v) 1000
      in case literal_bytes
             [two_digits year100, two_digits year1, Inr ''-'',
              two_digits month, Inr ''-'',
              two_digits day, Inr '' '',
              two_digits hour, Inr '':'',
              two_digits minute, Inr '':'',
              two_digits second] of
           Inl p \<Rightarrow> Inl p
         | Inr buf \<Rightarrow>
             if micro \<noteq> 0
             then (let micro10000 = go_div micro 10000;
                       micro100 = go_mod (go_div micro 100) 100;
                       micro1 = go_mod micro 100
                   in case literal_bytes
                          [Inr ''.'', two_digits micro10000, two_digits micro100, two_digits micro1] of
                        Inl p \<Rightarrow> Inl p
                      | Inr frac \<Rightarrow> Inr (buf @ frac))
             else Inr buf)"

definition encodedLoadData :: "format_float \<Rightarrow> mysqlConn \<Rightarrow> driver_value \<Rightarrow> panic + string" where
  "encodedLoadData fmtFloat mc x =
     (case x of
        VInt64 v \<Rightarrow> Inr (FormatInt v)
      | VUint64 v \<Rightarrow> Inr (FormatUint v)
      | VFloat64 v \<Rightarrow> Inr (fmtFloat v CHR ''g'' (- 1) 64)
      | VBool v \<Rightarrow> (if v then Inr ''1'' else Inr ''0'')
      | VTime v \<Rightarrow>
          (if time_IsZero v then Inr ''0000-00-00''
           else encode_time (time_Add (time_In v (Loc (cfg mc))) 500))
      | VBytes v \<Rightarrow>
          (case v of None \<Rightarrow> Inr [CHR 0x5C, CHR ''N''] | Some b \<Rightarrow> Inr (escapedText b))
      | VString v \<Rightarrow> Inr (escapedText v)
      | VNil \<Rightarrow> Inr [CHR 0x5C, CHR ''N'']
      | VOther \<Rightarrow> Inr [])"

section \<open>Resource registries\<close>

text \<open>
  Go errors: one made by \<open>fmt.Errorf\<close> with its message, \<open>io.EOF\<close>, or an error value that
  a collaborator (transport, file system, reader) returned, told apart by a tag.
\<close>

datatype err = Errorf string | EOF | ExtErr nat

text \<open>
  An \<open>io.Reader\<close>: \<open>rd_Read k len\<close> is what the call number \<open>k\<close> (from 0) of \<open>Read\<close> on a
  buffer of \<open>len\<close> bytes returns, the bytes read and the error. \<open>rd_Close\<close> is \<open>None\<close> when
  the reader is no \<open>io.Closer\<close>, and the result of \<open>Close\<close> otherwise. A handler is the value
  its call returns: \<open>None\<close> is the nil reader.
\<close>

record reader =
  rd_Read :: "nat \<Rightarrow> nat \<Rightarrow> string \<times> err option"
  rd_Close :: "err option option"

type_synonym handler = "reader option"

text \<open>The two package-level maps; \<open>None\<close> is the nil map before the lazy initialisation.\<close>

record registers =
  fileRegister :: "(string \<rightharpoonup> bool) option"
  readerRegister :: "(string \<rightharpoonup> handler) option"

definition strings_Trim :: "string \<Rightarrow> string \<Rightarrow> string" where
  "strings_Trim s cutset =
     rev (dropWhile (\<lambda>c. c \<in> set cutset) (rev (dropWhile (\<lambda>c. c \<in> set cutset) s)))"

definition quote :: string where
  "quote = [CHR 0x22]"

definition RegisterLocalFile :: "registers \<Rightarrow> string \<Rightarrow> registers" where
  "RegisterLocalFile regs filePath =
     (let m = (case fileRegister regs of None \<Rightarrow> Map.empty | Some m \<Rightarrow> m)
      in regs\<lparr>fileRegister := Some (m(strings_Trim filePath quote \<mapsto> True))\<rparr>)"

definition DeregisterLocalFile :: "registers \<Rightarrow> string \<Rightarrow> registers" where
  "DeregisterLocalFile regs filePath =
     regs\<lparr>fileRegister :=
       (case fileRegister regs of
          None \<Rightarrow> None
        | Some m \<Rightarrow> Some (m(strings_Trim filePath quote := None)))\<rparr>"

definition RegisterReaderHandler :: "registers \<Rightarrow> string \<Rightarrow> handler \<Rightarrow> registers" where
  "RegisterReaderHandler regs name h =
     (let m = (case readerRegister regs of None \<Rightarrow> Map.empty | Some m \<Rightarrow> m)
      in regs\<lparr>readerRegister := Some (m(name \<mapsto> h))\<rparr>)"

definition DeregisterReaderHandler :: "registers \<Rightarrow> string \<Rightarrow> registers" where
  "DeregisterReaderHandler regs name =
     regs\<lparr>readerRegister :=
       (case readerRegister regs of
          None \<Rightarrow> None
        | Some m \<Rightarrow> Some (m(name := None)))\<rparr>"

text \<open>
  The reads of the maps in \<open>handleInFileRequest\<close>: \<open>fr := fileRegister[name]\<close> is false for
  an absent key, and \<open>handler, inMap := readerRegister[name]\<close> misses on an absent key.
  \<open>isFileAllowed\<close> is the condition \<open>mc.cfg.AllowAllFiles || fr\<close>, on the name as the
  dispatcher has trimmed it.
\<close>

definition file_registered :: "registers \<Rightarrow> string \<Rightarrow> bool" where
  "file_registered regs name =
     (case fileRegister regs of
        None \<Rightarrow> False
      | Some m \<Rightarrow> (case m name of None \<Rightarrow> False | Some b \<Rightarrow> b))"

definition isFileAllowed :: "registers \<Rightarrow> string \<Rightarrow> bool \<Rightarrow> bool" where
  "isFileAllowed regs name allowAll = (allowAll \<or> file_registered regs name)"

definition lookupReader :: "registers \<Rightarrow> string \<Rightarrow> handler option" where
  "lookupReader regs name = (case readerRegister regs of None \<Rightarrow> None | Some m \<Rightarrow> m name)"

section \<open>Collaborators\<close>

text \<open>
  What a request does to the outside is recorded as a trace of events, oldest first.
  \<open>WritePacket\<close> carries the payload of the packet handed to \<open>writePacket\<close>, that is the
  bytes after the four reserved bytes of the header, which the transport fills in.
  The transport answers from the history: \<open>writePacket_result\<close> is the error of a send
  and \<open>readResultOK_result\<close> the error of the completion read, each given the trace so far.
\<close>

datatype event =
    WritePacket string
  | ReadResultOK
  | ReadPacket
  | CallHandler string
  | OpenFile string
  | CloseSource

record osfile =
  f_Stat :: "err + int"
  f_Read :: "nat \<Rightarrow> nat \<Rightarrow> string \<times> err option"
  f_Close :: "err option"

record env =
  writePacket_result :: "event list \<Rightarrow> string \<Rightarrow> err option"
  readResultOK_result :: "event list \<Rightarrow> err option"
  os_Open :: "string \<Rightarrow> err + osfile"

definition header :: string where
  "header = replicate 4 (CHR 0x00)"

definition writePacket :: "env \<Rightarrow> event list \<Rightarrow> string \<Rightarrow> err option \<times> event list" where
  "writePacket e tr data =
     (writePacket_result e tr (drop 4 data), tr @ [WritePacket (drop 4 data)])"

definition readResultOK :: "env \<Rightarrow> event list \<Rightarrow> err option \<times> event list" where
  "readResultOK e tr = (readResultOK_result e tr, tr @ [ReadResultOK])"

definition readPacket :: "event list \<Rightarrow> event list" where
  "readPacket tr = tr @ [ReadPacket]"

section \<open>The programmatic load\<close>

definition loadDataStart :: "mysqlConn \<Rightarrow> err option \<times> mysqlConn" where
  "loadDataStart mc =
     (None,
      mc\<lparr>inLoadData := True,
         maxLoadDataSize :=
           (if go_div (maxWriteSize mc) 2 < 16 * 1024 then go_div (maxWriteSize mc) 2
            else 16 * 1024),
         loadData := loadData mc @ header\<rparr>)"

definition loadDataWritePacket ::
  "env \<Rightarrow> mysqlConn \<Rightarrow> event list \<Rightarrow> err option \<times> mysqlConn \<times> event list" where
  "loadDataWritePacket e mc tr =
     (case writePacket e tr (loadData mc) of
        (Some ioErr, tr1) \<Rightarrow> (Some ioErr, mc, tr1)
      | (None, tr1) \<Rightarrow> (None, mc\<lparr>loadData := header\<rparr>, tr1))"

text \<open>
  The deferred function clears \<open>inLoadData\<close> on every return. After the two sends the
  result \<open>err\<close> is still nil, so the completion read is what returns.
\<close>

definition loadDataTerminate ::
  "env \<Rightarrow> mysqlConn \<Rightarrow> event list \<Rightarrow> err option \<times> mysqlConn \<times> event list" where
  "loadDataTerminate e mc tr =
     (case loadDataWritePacket e mc tr of
        (Some ioErr, mc1, tr1) \<Rightarrow> (Some ioErr, mc1\<lparr>inLoadData := False\<rparr>, tr1)
      | (None, mc1, tr1) \<Rightarrow>
          (let mc2 = mc1\<lparr>loadData := []\<rparr> in
           case writePacket e tr1 header of
             (Some ioErr, tr2) \<Rightarrow> (Some ioErr, mc2\<lparr>inLoadData := False\<rparr>, tr2)
           | (None, tr2) \<Rightarrow>
               (case readResultOK e tr2 of
                  (res, tr3) \<Rightarrow> (res, mc2\<lparr>inLoadData := False\<rparr>, tr3))))"

text \<open>The loop of \<open>loadDataWrite\<close> over the columns; \<open>n\<close> is the index of the column.\<close>

fun write_columns ::
  "format_float \<Rightarrow> mysqlConn \<Rightarrow> nat \<Rightarrow> driver_value list \<Rightarrow> string \<Rightarrow> panic + string" where
  "write_columns fmtFloat mc n [] buf = Inr buf"
| "write_columns fmtFloat mc n (column # rest) buf =
     (case encodedLoadData fmtFloat mc column of
        Inl p \<Rightarrow> Inl p
      | Inr s \<Rightarrow>
          write_columns fmtFloat mc (n + 1) rest
            ((if n > 0 then buf @ [CHR 0x09] else buf) @ s))"

definition loadDataWrite ::
  "format_float \<Rightarrow> env \<Rightarrow> mysqlConn \<Rightarrow> event list \<Rightarrow> driver_value list \<Rightarrow>
   (panic + err option) \<times> mysqlConn \<times> event list" where
  "loadDataWrite fmtFloat e mc tr args =
     (if length args = 0
      then (case loadDataTerminate e mc tr of (res, mc1, tr1) \<Rightarrow> (Inr res, mc1, tr1))
      else
        case write_columns fmtFloat mc 0 args (loadData mc) of
          Inl p \<Rightarrow> (Inl p, mc, tr)
        | Inr buf \<Rightarrow>
            (let mc1 = mc\<lparr>loadData := buf @ [CHR 0x0A]\<rparr> in
             if int (length (loadData mc1)) > maxLoadDataSize mc1
             then (case loadDataWritePacket e mc1 tr of (res, mc2, tr1) \<Rightarrow> (Inr res, mc2, tr1))
             else (Inr None, mc1, tr)))"

section \<open>handleInFileRequest\<close>

text \<open>\<open>strings.Index\<close>: the index of the first instance of \<open>sub\<close> in \<open>s\<close>, or -1.\<close>

fun index_from :: "string \<Rightarrow> string \<Rightarrow> nat \<Rightarrow> nat option" where
  "index_from [] sub i = (if sub = [] then Some i else None)"
| "index_from (c # cs) sub i =
     (if take (length sub) (c # cs) = sub then Some i else index_from cs sub (i + 1))"

definition strings_Index :: "string \<Rightarrow> string \<Rightarrow> int" where
  "strings_Index s sub = (case index_from s sub 0 of None \<Rightarrow> - 1 | Some i \<Rightarrow> int i)"

text \<open>
  The loop that sends the content. \<open>k\<close> counts the calls of \<open>Read\<close>; a read returns at most
  as many bytes as the buffer after the header holds. The loop ends when a send fails
  or when a read returns an error; a reader that never returns one keeps it running,
  and the function then has no value.
\<close>

datatype loop_exit = SendFailed err | ReadEnded err

partial_function (option) send_content ::
  "env \<Rightarrow> (nat \<Rightarrow> nat \<Rightarrow> string \<times> err option) \<Rightarrow> nat \<Rightarrow> nat \<Rightarrow> event list \<Rightarrow>
   (loop_exit \<times> event list) option" where
  "send_content e rd packetSize k tr =
     (case rd k packetSize of
        (bytes, rerr) \<Rightarrow>
          (let chunk = take packetSize bytes in
           if length chunk > 0
           then (case writePacket e tr (header @ chunk) of
                   (Some ioErr, tr1) \<Rightarrow> Some (SendFailed ioErr, tr1)
                 | (None, tr1) \<Rightarrow>
                     (case rerr of
                        None \<Rightarrow> send_content e rd packetSize (k + 1) tr1
                      | Some er \<Rightarrow> Some (ReadEnded er, tr1)))
           else (case rerr of
                   None \<Rightarrow> send_content e rd packetSize (k + 1) tr
                 | Some er \<Rightarrow> Some (ReadEnded er, tr))))"

text \<open>
  The state after the resolution of the name: the reader (nil when none was resolved),
  the error, the packet size, the deferred \<open>Close\<close> (its result, when one was deferred)
  and the trace.
\<close>

record resolved =
  r_rdr :: "(nat \<Rightarrow> nat \<Rightarrow> string \<times> err option) option"
  r_err :: "err option"
  r_packetSize :: int
  r_closer :: "err option option"
  r_trace :: "event list"

definition apostrophe :: string where
  "apostrophe = [CHR 0x27]"

definition resolve_reader :: "registers \<Rightarrow> int \<Rightarrow> string \<Rightarrow> event list \<Rightarrow> resolved" where
  "resolve_reader regs packetSize name tr =
     (case lookupReader regs name of
        Some h \<Rightarrow>
          (case h of
             Some rdr \<Rightarrow>
               \<lparr>r_rdr = Some (rd_Read rdr), r_err = None, r_packetSize = packetSize,
                r_closer = rd_Close rdr, r_trace = tr @ [CallHandler name]\<rparr>
           | None \<Rightarrow>
               \<lparr>r_rdr = None,
                r_err = Some (Errorf (''Reader '' @ apostrophe @ name @ apostrophe @ '' is <nil>'')),
                r_packetSize = packetSize, r_closer = None,
                r_trace = tr @ [CallHandler name]\<rparr>)
      | None \<Rightarrow>
          \<lparr>r_rdr = None,
           r_err = Some (Errorf (''Reader '' @ apostrophe @ name @ apostrophe @ '' is not registered'')),
           r_packetSize = packetSize, r_closer = None, r_trace = tr\<rparr>)"

definition resolve_file ::
  "env \<Rightarrow> registers \<Rightarrow> mysqlConn \<Rightarrow> int \<Rightarrow> string \<Rightarrow> event list \<Rightarrow> resolved" where
  "resolve_file e regs mc packetSize name tr =
     (if isFileAllowed regs name (AllowAllFiles (cfg mc))
      then
        (case os_Open e name of
           Inl er \<Rightarrow>
             \<lparr>r_rdr = None, r_err = Some er, r_packetSize = packetSize, r_closer = None,
              r_trace = tr @ [OpenFile name]\<rparr>
         | Inr file \<Rightarrow>
             (case f_Stat file of
                Inl er \<Rightarrow>
                  \<lparr>r_rdr = None, r_err = Some er, r_packetSize = packetSize,
                   r_closer = Some (f_Close file), r_trace = tr @ [OpenFile name]\<rparr>
              | Inr fileSize \<Rightarrow>
                  \<lparr>r_rdr = Some (f_Read file), r_err = None,
                   r_packetSize = (if fileSize < packetSize then fileSize else packetSize),
                   r_closer = Some (f_Close file), r_trace = tr @ [OpenFile name]\<rparr>))
      else
        \<lparr>r_rdr = None,
         r_err = Some (Errorf (''local file '' @ apostrophe @ name @ apostrophe @ '' is not registered'')),
         r_packetSize = packetSize, r_closer = None, r_trace = tr\<rparr>)"

definition is_reader_name :: "string \<Rightarrow> bool" where
  "is_reader_name name =
     (let idx = strings_Index name ''Reader::''
      in idx = 0 \<or> (idx > 0 \<and> name ! nat (idx - 1) = CHR ''/''))"

definition resolve ::
  "env \<Rightarrow> registers \<Rightarrow> mysqlConn \<Rightarrow> int \<Rightarrow> string \<Rightarrow> event list \<Rightarrow> resolved" where
  "resolve e regs mc packetSize name tr =
     (if is_reader_name name
      then resolve_reader regs packetSize (drop (nat (strings_Index name ''Reader::'' + 8)) name) tr
      else resolve_file e regs mc packetSize (strings_Trim name quote) tr)"

text \<open>
  The end of the request: the empty packet, then the completion read when no error is
  pending, or the read of one packet, whose result is dropped, and the pending error.
\<close>

definition finish_request :: "env \<Rightarrow> err option \<Rightarrow> event list \<Rightarrow> err option \<times> event list" where
  "finish_request e err tr =
     (case writePacket e tr header of
        (Some ioErr, tr1) \<Rightarrow> (Some ioErr, tr1)
      | (None, tr1) \<Rightarrow>
          (case err of
             None \<Rightarrow> readResultOK e tr1
           | Some er \<Rightarrow> (Some er, readPacket tr1)))"

text \<open>\<open>deferredClose\<close>, run on return: the result of \<open>Close\<close> is the result when none is set.\<close>

definition deferredClose :: "err option option \<Rightarrow> err option \<times> event list \<Rightarrow> err option \<times> event list" where
  "deferredClose closer r =
     (case closer of
        None \<Rightarrow> r
      | Some closeErr \<Rightarrow>
          (case fst r of
             None \<Rightarrow> (closeErr, snd r @ [CloseSource])
           | Some er \<Rightarrow> (Some er, snd r @ [CloseSource])))"

definition returned ::
  "mysqlConn \<Rightarrow> err option \<times> event list \<Rightarrow> (panic + err option) \<times> mysqlConn \<times> event list" where
  "returned mc r = (Inr (fst r), mc, snd r)"

definition handleInFileRequest ::
  "env \<Rightarrow> registers \<Rightarrow> mysqlConn \<Rightarrow> event list \<Rightarrow> string \<Rightarrow>
   ((panic + err option) \<times> mysqlConn \<times> event list) option" where
  "handleInFileRequest e regs mc tr name =
     (let packetSize = (if maxWriteSize mc < 16 * 1024 then maxWriteSize mc else 16 * 1024) in
      if name = ''Data::Data''
      then (case loadDataStart mc of (res, mc1) \<Rightarrow> Some (Inr res, mc1, tr))
      else
        let r = resolve e regs mc packetSize name tr in
        if r_err r = None \<and> r_packetSize r > 0
        then
          (case r_rdr r of
             None \<Rightarrow> Some (Inl NilDereference, mc, r_trace r)
           | Some rd \<Rightarrow>
               (case send_content e rd (nat (r_packetSize r)) 0 (r_trace r) of
                  None \<Rightarrow> None
                | Some (SendFailed ioErr, tr1) \<Rightarrow>
                    Some (returned mc (deferredClose (r_closer r) (Some ioErr, tr1)))
                | Some (ReadEnded er, tr1) \<Rightarrow>
                    Some (returned mc (deferredClose (r_closer r)
                      (finish_request e (if er = EOF then None else Some er) tr1)))))
        else Some (returned mc (deferredClose (r_closer r) (finish_request e (r_err r) (r_trace r)))))"

section \<open>Properties of the escaping\<close>

lemma escape_loop_eq:
  "i \<le> length s \<Longrightarrow>
   escape_loop s i result = result @ concat (map escape_byte (drop i s))"
proof (induction s i result rule: escape_loop.induct)
  case (1 s i result)
  show ?case
  proof (cases "i < length s")
    case True
    then have d: "drop i s = s ! i # drop (Suc i) s"
      by (simp add: Cons_nth_drop_Suc)
    from True have "escape_loop s i result =
        escape_loop s (i + 1) (result @ escape_byte (s ! i))"
      by (subst escape_loop.simps) simp
    also have "\<dots> = (result @ escape_byte (s ! i)) @
        concat (map escape_byte (drop (i + 1) s))"
      using True by (intro "1.IH") simp_all
    finally show ?thesis by (simp add: d)
  next
    case False
    with "1.prems" have "i = length s" by simp
    then show ?thesis by (subst escape_loop.simps) simp
  qed
qed

lemma escape_scan_None:
  "escape_scan s i = None \<Longrightarrow> \<forall>j. i \<le> j \<and> j < length s \<longrightarrow> \<not> is_special (s ! j)"
proof (induction s i rule: escape_scan.induct)
  case (1 s i)
  show ?case
  proof (intro allI impI)
    fix j assume j: "i \<le> j \<and> j < length s"
    then have il: "i < length s" by simp
    from "1.prems" il have ns: "\<not> is_special (s ! i)"
      by (subst (asm) escape_scan.simps) (auto split: if_splits)
    from "1.prems" il ns have "escape_scan s (i + 1) = None"
      by (subst (asm) escape_scan.simps) simp
    with "1.IH" il ns have ih: "\<forall>j. i + 1 \<le> j \<and> j < length s \<longrightarrow> \<not> is_special (s ! j)"
      by blast
    show "\<not> is_special (s ! j)"
    proof (cases "j = i")
      case True with ns show ?thesis by simp
    next
      case False with j ih show ?thesis by simp
    qed
  qed
qed

lemma escape_scan_Some:
  "escape_scan s i = Some k \<Longrightarrow>
   i \<le> k \<and> k < length s \<and> is_special (s ! k) \<and>
   (\<forall>j. i \<le> j \<and> j < k \<longrightarrow> \<not> is_special (s ! j))"
proof (induction s i rule: escape_scan.induct)
  case (1 s i)
  from "1.prems" have il: "i < length s"
    by (subst (asm) escape_scan.simps) (auto split: if_splits)
  show ?case
  proof (cases "is_special (s ! i)")
    case True
    with "1.prems" il have "k = i"
      by (subst (asm) escape_scan.simps) simp
    with True il show ?thesis by auto
  next
    case False
    with "1.prems" il have "escape_scan s (i + 1) = Some k"
      by (subst (asm) escape_scan.simps) simp
    with "1.IH" il False have ih: "i + 1 \<le> k \<and> k < length s \<and> is_special (s ! k) \<and>
        (\<forall>j. i + 1 \<le> j \<and> j < k \<longrightarrow> \<not> is_special (s ! j))"
      by blast
    have "\<forall>j. i \<le> j \<and> j < k \<longrightarrow> \<not> is_special (s ! j)"
    proof (intro allI impI)
      fix j assume j: "i \<le> j \<and> j < k"
      show "\<not> is_special (s ! j)"
      proof (cases "j = i")
        case True with False show ?thesis by simp
      next
        case False with j ih show ?thesis by simp
      qed
    qed
    with ih show ?thesis by simp
  qed
qed

lemma escape_byte_plain: "\<not> is_special c \<Longrightarrow> escape_byte c = [c]"
  by (simp add: is_special_def escape_byte_def)

lemma concat_escape_plain:
  "\<forall>c \<in> set xs. \<not> is_special c \<Longrightarrow> concat (map escape_byte xs) = xs"
  by (induction xs) (simp_all add: escape_byte_plain)

lemma escapedText_refines: "escapedText s = escapeRowText_spec s"
proof (cases "escape_scan s 0")
  case None
  then have "\<forall>j. j < length s \<longrightarrow> \<not> is_special (s ! j)"
    using escape_scan_None [of _ 0] by simp
  then have "\<forall>c \<in> set s. \<not> is_special c"
    by (auto simp: in_set_conv_nth)
  then show ?thesis
    using None by (simp add: escapedText_def escapeRowText_spec_def concat_escape_plain)
next
  case (Some k)
  then have k: "k < length s" and pre: "\<forall>j. j < k \<longrightarrow> \<not> is_special (s ! j)"
    using escape_scan_Some [of _ 0 k] by simp_all
  have "\<forall>c \<in> set (take k s). \<not> is_special c"
    using k pre by (auto simp: in_set_conv_nth)
  then have tk: "concat (map escape_byte (take k s)) = take k s"
    by (rule concat_escape_plain)
  have "escapedText s = take k s @ concat (map escape_byte (drop k s))"
    using Some k by (simp add: escapedText_def escape_loop_eq)
  also have "\<dots> = concat (map escape_byte (take k s)) @ concat (map escape_byte (drop k s))"
    using tk by simp
  also have "\<dots> = concat (map escape_byte (take k s @ drop k s))"
    by (simp only: map_append concat_append)
  finally show ?thesis by (simp add: escapeRowText_spec_def)
qed

section \<open>Properties of the time model\<close>

lemma go_div_nonneg: "0 \<le> a \<Longrightarrow> 0 < b \<Longrightarrow> go_div a b = a div b"
  by (cases "a = 0") (simp_all add: go_div_def)

lemma go_mod_nonneg: "0 \<le> a \<Longrightarrow> 0 < b \<Longrightarrow> go_mod a b = a mod b"
  by (simp add: go_mod_def go_div_nonneg minus_mult_div_eq_mod)

lemma go_mod_zero_iff: "0 < b \<Longrightarrow> go_mod a b = 0 \<longleftrightarrow> a mod b = 0"
proof (cases "0 \<le> a")
  case True
  assume "0 < b" with True show ?thesis by (simp add: go_mod_nonneg)
next
  case False
  assume b: "0 < b"
  from False have n: "a < 0" by simp
  have "go_mod a b = - ((- a) mod b)"
    using n b by (simp add: go_mod_def go_div_def minus_mult_div_eq_mod [symmetric])
  then show ?thesis using b by (simp add: mod_eq_0_iff_dvd)
qed

lemma isLeap_iff: "isLeap y \<longleftrightarrow> y mod 4 = 0 \<and> (y mod 100 \<noteq> 0 \<or> y mod 400 = 0)"
  by (simp add: isLeap_def go_mod_zero_iff)

lemma absDate_yday:
  assumes "absDate days = (y, yd)"
  shows "0 \<le> yd \<and> yd \<le> 365 \<and> (yd = 365 \<longrightarrow> isLeap y)"
proof -
  define n400 where "n400 = days div 146097"
  define d0 where "d0 = days mod 146097"
  define c where "c = d0 div 36524"
  define n100 where "n100 = c - c div 4"
  define d1 where "d1 = d0 - 36524 * n100"
  define n4 where "n4 = d1 div 1461"
  define d2 where "d2 = d1 - 1461 * n4"
  define e where "e = d2 div 365"
  define n1 where "n1 = e - e div 4"
  define d3 where "d3 = d2 - 365 * n1"
  have "absDate days = (400 * n400 + 100 * n100 + 4 * n4 + n1 + 1, d3)"
    by (simp only: absDate_def Let_def n400_def d0_def c_def n100_def d1_def n4_def d2_def
        e_def n1_def d3_def)
  with assms have y: "y = 400 * n400 + 100 * n100 + 4 * n4 + n1 + 1" and yd: "yd = d3"
    by simp_all
  have d0: "0 \<le> d0" "d0 \<le> 146096" by (simp_all add: d0_def)
  define r0 where "r0 = d0 mod 36524"
  have r0: "d0 = 36524 * c + r0" "0 \<le> r0" "r0 < 36524"
    by (simp_all add: r0_def c_def)
  have "0 \<le> c \<and> c \<le> 4" using d0 r0 by linarith
  then have c: "c = 0 \<or> c = 1 \<or> c = 2 \<or> c = 3 \<or> c = 4" by linarith
  have n100c: "n100 = (if c = 4 then 3 else c)" using c by (auto simp: n100_def)
  have n100: "0 \<le> n100" "n100 \<le> 3" using c n100c by auto
  have d1c: "d1 = (if c = 4 then 36524 else r0)"
  proof (cases "c = 4")
    case True
    then have "r0 = 0" using d0 r0 by linarith
    with True show ?thesis using r0 n100c by (simp add: d1_def)
  next
    case False
    then show ?thesis using r0 n100c by (simp add: d1_def)
  qed
  have d1: "0 \<le> d1" "d1 \<le> 36524" "n100 < 3 \<longrightarrow> d1 \<le> 36523"
    using d1c r0 n100c by (simp_all split: if_splits)
  define r1 where "r1 = d1 mod 1461"
  have r1: "d1 = 1461 * n4 + r1" "0 \<le> r1" "r1 < 1461"
    by (simp_all add: r1_def n4_def)
  have d2r: "d2 = r1" using r1 by (simp add: d2_def)
  have n4: "0 \<le> n4" "n4 \<le> 24" using d1 r1 by linarith+
  have n4': "d1 \<le> 36523 \<longrightarrow> n4 < 24 \<or> d2 \<le> 1459" using r1 d2r n4 by linarith
  have d2: "0 \<le> d2" "d2 \<le> 1460" using r1 d2r by simp_all
  define r2 where "r2 = d2 mod 365"
  have r2: "d2 = 365 * e + r2" "0 \<le> r2" "r2 < 365"
    by (simp_all add: r2_def e_def)
  have "0 \<le> e \<and> e \<le> 4" using d2 r2 by linarith
  then have e: "e = 0 \<or> e = 1 \<or> e = 2 \<or> e = 3 \<or> e = 4" by linarith
  have n1e: "n1 = (if e = 4 then 3 else e)" using e by (auto simp: n1_def)
  have n1: "0 \<le> n1" "n1 \<le> 3" using e n1e by auto
  have d3c: "d3 = (if e = 4 then 365 else r2)" "e = 4 \<longrightarrow> d2 = 1460"
  proof -
    have "e = 4 \<longrightarrow> r2 = 0" using d2 r2 by linarith
    then show "d3 = (if e = 4 then 365 else r2)" "e = 4 \<longrightarrow> d2 = 1460"
      using r2 n1e by (simp_all add: d3_def)
  qed
  have d3: "0 \<le> d3" "d3 \<le> 365" "d3 = 365 \<longrightarrow> n1 = 3 \<and> d2 = 1460"
    using d3c r2 n1e by (simp_all split: if_splits)
  have "isLeap y" if "d3 = 365"
  proof -
    from that d3 have a: "n1 = 3" "d2 = 1460" by simp_all
    have b: "n4 < 24 \<or> n100 = 3" using a n4' d1 n100 by auto
    have y4: "y = 4 * (100 * n400 + 25 * n100 + n4 + 1)" using y a by simp
    then have m4: "y mod 4 = 0" by simp
    have y100: "0 \<le> k \<Longrightarrow> k < 100 \<Longrightarrow> y = 100 * (4 * n400 + n100) + k \<Longrightarrow> y mod 100 = k" for k
    proof -
      assume k: "0 \<le> k" "k < 100" and "y = 100 * (4 * n400 + n100) + k"
      then have "y mod 100 = (k + 100 * (4 * n400 + n100)) mod 100" by (simp add: add.commute)
      also have "\<dots> = k mod 100" by (rule mod_mult_self2)
      finally show ?thesis using k by simp
    qed
    have y5: "y = 100 * (4 * n400 + n100) + 4 * (n4 + 1)" using y4 by simp
    from b show ?thesis
    proof
      assume "n4 < 24"
      then have "y mod 100 = 4 * (n4 + 1)" using y100 [of "4 * (n4 + 1)"] y5 n4 by simp
      then have "y mod 100 \<noteq> 0" using n4 by simp
      with m4 show ?thesis by (simp add: isLeap_iff)
    next
      assume n: "n100 = 3"
      show ?thesis
      proof (cases "n4 < 24")
        case True
        then have "y mod 100 = 4 * (n4 + 1)" using y100 [of "4 * (n4 + 1)"] y5 n4 by simp
        then have "y mod 100 \<noteq> 0" using n4 by simp
        with m4 show ?thesis by (simp add: isLeap_iff)
      next
        case False
        then have "n4 = 24" using n4 by simp
        then have "y = 400 * (n400 + 1)" using y4 n by simp
        then have "y mod 400 = 0" by simp
        with m4 show ?thesis by (simp add: isLeap_iff)
      qed
    qed
  qed
  with d3 yd show ?thesis by simp
qed

lemma daysBefore_nth:
  "daysBefore ! 0 = 0" "daysBefore ! 1 = 31" "daysBefore ! 2 = 59" "daysBefore ! 3 = 90"
  "daysBefore ! 4 = 120" "daysBefore ! 5 = 151" "daysBefore ! 6 = 181" "daysBefore ! 7 = 212"
  "daysBefore ! 8 = 243" "daysBefore ! 9 = 273" "daysBefore ! 10 = 304" "daysBefore ! 11 = 334"
  "daysBefore ! 12 = 365" "daysBefore ! Suc 0 = 31"
  by (simp_all add: daysBefore_def)

lemma month_day_plain:
  assumes "0 \<le> day" "day \<le> 364"
  shows "(let month = day div 31; end = daysBefore ! nat (month + 1)
          in if day \<ge> end then (month + 2, day - end + 1)
             else (month + 1, day - daysBefore ! nat month + 1))
         \<in> {1..12} \<times> {1..31}"
proof -
  define m where "m = day div 31"
  define r where "r = day mod 31"
  have r: "day = 31 * m + r" "0 \<le> r" "r < 31" by (simp_all add: m_def r_def)
  have m: "m = 0 \<or> m = 1 \<or> m = 2 \<or> m = 3 \<or> m = 4 \<or> m = 5 \<or> m = 6 \<or> m = 7 \<or> m = 8
      \<or> m = 9 \<or> m = 10 \<or> m = 11"
  proof -
    have "0 \<le> m \<and> m \<le> 11" using assms r by linarith
    then show ?thesis by presburger
  qed
  from m show ?thesis
    unfolding Let_def m_def [symmetric]
    using r assms by (elim disjE) (simp_all add: daysBefore_nth)
qed

lemma month_day_bounds:
  assumes "0 \<le> yd" "yd \<le> 365" "yd = 365 \<longrightarrow> isLeap y"
  shows "month_day y yd \<in> {1..12} \<times> {1..31}"
proof (cases "isLeap y \<and> yd = 59")
  case True
  then show ?thesis by (simp add: month_day_def)
next
  case False
  define day where "day = (if isLeap y \<and> yd > 59 then yd - 1 else yd)"
  have d: "0 \<le> day" "day \<le> 364" using assms by (auto simp: day_def)
  have "month_day y yd = (let month = day div 31; end = daysBefore ! nat (month + 1)
          in if day \<ge> end then (month + 2, day - end + 1)
             else (month + 1, day - daysBefore ! nat month + 1))"
    unfolding month_day_def day_def Let_def using False by (simp only: if_False)
  with month_day_plain [OF d] show ?thesis by simp
qed

section \<open>The digit tables\<close>

lemma digit_char_simps:
  "digit_char 0 = CHR ''0''" "digit_char 1 = CHR ''1''" "digit_char 2 = CHR ''2''"
  "digit_char 3 = CHR ''3''" "digit_char 4 = CHR ''4''" "digit_char 5 = CHR ''5''"
  "digit_char 6 = CHR ''6''" "digit_char 7 = CHR ''7''" "digit_char 8 = CHR ''8''"
  "digit_char 9 = CHR ''9''" "digit_char (Suc 0) = CHR ''1''"
  by code_simp+

lemma upt_0_100: "[0..<100] = 0 # 1 # [2..<100]"
proof -
  have "[0..<100] = 0 # [Suc 0..<100]" by (rule upt_conv_Cons) simp
  also have "[Suc 0..<100] = Suc 0 # [Suc (Suc 0)..<100]" by (rule upt_conv_Cons) simp
  finally show ?thesis by (simp add: numeral_2_eq_2)
qed

lemma digits_zip:
  "zip digits10 digits01 = map (\<lambda>n. (digit_char (n div 10), digit_char (n mod 10))) [0..<100]"
  unfolding upt_0_100
  by (simp add: digits10_def digits01_def upt_rec_numeral digit_char_simps)


lemma digits_len: "length digits10 = 100" "length digits01 = 100"
  by (simp_all add: digits10_def digits01_def)

lemma digits_nth:
  assumes "n < 100"
  shows "digits10 ! n = digit_char (n div 10)" "digits01 ! n = digit_char (n mod 10)"
proof -
  have "zip digits10 digits01 ! n = (digits10 ! n, digits01 ! n)"
    using assms by (simp add: digits_len)
  moreover have "zip digits10 digits01 ! n = (digit_char (n div 10), digit_char (n mod 10))"
    using assms by (simp only: digits_zip) simp
  ultimately show "digits10 ! n = digit_char (n div 10)" "digits01 ! n = digit_char (n mod 10)"
    by simp_all
qed

lemma two_digits_ok:
  "0 \<le> i \<Longrightarrow> i < 100 \<Longrightarrow> two_digits i = Inr [digit_char (nat i div 10), digit_char (nat i mod 10)]"
  using digits_nth [of "nat i"] by (simp add: two_digits_def index_byte_def digits_len)

lemma two_digits_panic: "two_digits i = Inl IndexOutOfRange \<longleftrightarrow> i < 0 \<or> 100 \<le> i"
  by (auto simp: two_digits_def index_byte_def digits_len)

section \<open>Claims\<close>

text \<open>
  C3. For every input string, \<open>escapedText\<close> replaces every occurrence of exactly the four
  bytes backslash, newline, carriage return and horizontal tab by the two-character
  escapes, each on its own and in place (so the escaping of a concatenation is the
  concatenation of the escapings), leaves every other byte as it is, and returns the
  input when none of the four bytes occurs in it.
\<close>

theorem escapedText_escapes_four_bytes:
  "escapedText s =
     concat (map (\<lambda>c. if c = CHR 0x5C then [CHR 0x5C, CHR 0x5C]
                       else if c = CHR 0x0A then [CHR 0x5C, CHR ''n'']
                       else if c = CHR 0x0D then [CHR 0x5C, CHR ''r'']
                       else if c = CHR 0x09 then [CHR 0x5C, CHR ''t'']
                       else [c]) s)
   \<and> escapedText (s @ s') = escapedText s @ escapedText s'
   \<and> ((\<forall>c \<in> set s. c \<noteq> CHR 0x5C \<and> c \<noteq> CHR 0x0A \<and> c \<noteq> CHR 0x0D \<and> c \<noteq> CHR 0x09) \<longrightarrow>
        escapedText s = s)"
proof (intro conjI impI)
  have eb: "escape_byte = (\<lambda>c. if c = CHR 0x5C then [CHR 0x5C, CHR 0x5C]
                       else if c = CHR 0x0A then [CHR 0x5C, CHR ''n'']
                       else if c = CHR 0x0D then [CHR 0x5C, CHR ''r'']
                       else if c = CHR 0x09 then [CHR 0x5C, CHR ''t'']
                       else [c])"
    by (rule ext) (simp add: escape_byte_def)
  show "escapedText s =
     concat (map (\<lambda>c. if c = CHR 0x5C then [CHR 0x5C, CHR 0x5C]
                       else if c = CHR 0x0A then [CHR 0x5C, CHR ''n'']
                       else if c = CHR 0x0D then [CHR 0x5C, CHR ''r'']
                       else if c = CHR 0x09 then [CHR 0x5C, CHR ''t'']
                       else [c]) s)"
    by (simp only: escapedText_refines escapeRowText_spec_def eb)
  show "escapedText (s @ s') = escapedText s @ escapedText s'"
    by (simp add: escapedText_refines escapeRowText_spec_def)
  assume "\<forall>c \<in> set s. c \<noteq> CHR 0x5C \<and> c \<noteq> CHR 0x0A \<and> c \<noteq> CHR 0x0D \<and> c \<noteq> CHR 0x09"
  then have "\<forall>c \<in> set s. \<not> is_special c" by (simp add: is_special_def)
  then show "escapedText s = s"
    by (simp add: escapedText_refines escapeRowText_spec_def concat_escape_plain)
qed

theorem escapedText_escapes_four_bytes_witness:
  "escapedText ''it's'' = ''it's''
   \<and> escapedText [CHR ''t'', CHR 0x09, CHR 0x0A, CHR 0x0D, CHR 0x5C, CHR ''e'', CHR ''s'', CHR ''t'']
       = [CHR ''t'', CHR 0x5C, CHR ''t'', CHR 0x5C, CHR ''n'', CHR 0x5C, CHR ''r'',
          CHR 0x5C, CHR 0x5C, CHR ''e'', CHR ''s'', CHR ''t'']"
  using escapedText_escapes_four_bytes [of "''it's''" "[]"]
    escapedText_escapes_four_bytes
      [of "[CHR ''t'', CHR 0x09, CHR 0x0A, CHR 0x0D, CHR 0x5C, CHR ''e'', CHR ''s'', CHR ''t'']" "[]"]
  by simp

text \<open>
  C5. When a programmatic load starts, the flush threshold becomes the smaller of
  16 KiB and half the maximum write size (Go's integer division by 2), so it exceeds
  neither; for a maximum write size that is not negative, twice the threshold is at
  most the maximum write size. The start also sets the loading flag and writes the
  four bytes of the placeholder header to the buffer.
\<close>

theorem loadDataStart_threshold:
  "maxLoadDataSize (snd (loadDataStart mc)) = min (16 * 1024) (go_div (maxWriteSize mc) 2)
   \<and> maxLoadDataSize (snd (loadDataStart mc)) \<le> 16 * 1024
   \<and> maxLoadDataSize (snd (loadDataStart mc)) \<le> go_div (maxWriteSize mc) 2
   \<and> (0 \<le> maxWriteSize mc \<longrightarrow> 2 * maxLoadDataSize (snd (loadDataStart mc)) \<le> maxWriteSize mc)
   \<and> inLoadData (snd (loadDataStart mc))
   \<and> loadData (snd (loadDataStart mc)) = loadData mc @ [CHR 0x00, CHR 0x00, CHR 0x00, CHR 0x00]
   \<and> fst (loadDataStart mc) = None"
proof -
  have "2 * (m div 2) \<le> m" for m :: int
    by presburger
  then have h: "0 \<le> maxWriteSize mc \<longrightarrow> 2 * go_div (maxWriteSize mc) 2 \<le> maxWriteSize mc"
    by (simp add: go_div_nonneg)
  have hd: "header = [CHR 0x00, CHR 0x00, CHR 0x00, CHR 0x00]"
    by (simp add: header_def numeral_eq_Suc)
  show ?thesis using h by (auto simp: loadDataStart_def hd)
qed

theorem loadDataStart_threshold_witness:
  "maxLoadDataSize (snd (loadDataStart
      \<lparr>cfg = \<lparr>AllowAllFiles = False, Loc = UTC\<rparr>, maxWriteSize = 1001, inLoadData = False,
       maxLoadDataSize = 0, loadData = []\<rparr>)) = 500
   \<and> maxLoadDataSize (snd (loadDataStart
      \<lparr>cfg = \<lparr>AllowAllFiles = False, Loc = UTC\<rparr>, maxWriteSize = 16777214, inLoadData = False,
       maxLoadDataSize = 0, loadData = []\<rparr>)) = 16384"
  using loadDataStart_threshold
      [of "\<lparr>cfg = \<lparr>AllowAllFiles = False, Loc = UTC\<rparr>, maxWriteSize = 1001, inLoadData = False,
            maxLoadDataSize = 0, loadData = []\<rparr>"]
    loadDataStart_threshold
      [of "\<lparr>cfg = \<lparr>AllowAllFiles = False, Loc = UTC\<rparr>, maxWriteSize = 16777214, inLoadData = False,
            maxLoadDataSize = 0, loadData = []\<rparr>"]
  by (simp add: go_div_nonneg)

text \<open>
  C10. For every file path, registering it makes it allowed, and deregistering it after
  that makes the file-allowed check, with the override off, false again for the path
  with its surrounding quotes stripped. For every reader name, registering a handler
  makes the lookup hit, and deregistering the name after that makes it miss again.
\<close>

theorem register_deregister_roundtrip:
  "isFileAllowed (RegisterLocalFile regs filePath) (strings_Trim filePath quote) False
   \<and> \<not> isFileAllowed (DeregisterLocalFile (RegisterLocalFile regs filePath) filePath)
         (strings_Trim filePath quote) False
   \<and> lookupReader (RegisterReaderHandler regs name h) name = Some h
   \<and> lookupReader (DeregisterReaderHandler (RegisterReaderHandler regs name h) name) name = None"
  by (simp add: isFileAllowed_def file_registered_def RegisterLocalFile_def
      DeregisterLocalFile_def lookupReader_def RegisterReaderHandler_def
      DeregisterReaderHandler_def Let_def)

end
